theory Spec2Isabelle
  imports Complex_Main "HOL-Library.Sublist"
begin

section \<open>Python values the dataset code relies on\<close>

text \<open>
  The exceptions that \<^verbatim>\<open>dataset.py\<close> can raise, directly or through the built-ins it
  calls. \<open>ValueError\<close> carries its message, \<open>JSONDecodeError\<close> the document that
  \<^verbatim>\<open>json.loads\<close> was given (the exception's \<^verbatim>\<open>doc\<close> attribute), \<open>FileNotFoundError\<close> the
  path handed to \<^verbatim>\<open>open\<close>.
\<close>

datatype error =
    ValueError string
  | IndexError
  | ZeroDivisionError
  | JSONDecodeError string
  | FileNotFoundError string

text \<open>\<^verbatim>\<open>a // b\<close> on Python ints: floor division, raising on a zero divisor.\<close>

definition py_floordiv :: "int \<Rightarrow> int \<Rightarrow> error + int" where
  "py_floordiv a b = (if b = 0 then Inl ZeroDivisionError else Inr (a div b))"

text \<open>\<^verbatim>\<open>list(range(start, stop, step))\<close>.\<close>

definition py_range :: "int \<Rightarrow> int \<Rightarrow> int \<Rightarrow> error + int list" where
  "py_range start stop step =
     (if step = 0 then Inl (ValueError ''range() arg 3 must not be zero'')
      else if 0 < step
        then Inr (map (\<lambda>k. start + int k * step) [0..<nat ((stop - start + step - 1) div step)])
        else Inr (map (\<lambda>k. start + int k * step) [0..<nat ((start - stop - step - 1) div (- step))]))"

text \<open>\<^verbatim>\<open>xs[i]\<close>: a negative index counts from the end, anything out of range raises.\<close>

definition py_getitem :: "'a list \<Rightarrow> int \<Rightarrow> error + 'a" where
  "py_getitem xs i =
     (if 0 \<le> i \<and> i < int (length xs) then Inr (xs ! nat i)
      else if i < 0 \<and> - int (length xs) \<le> i then Inr (xs ! nat (int (length xs) + i))
      else Inl IndexError)"

text \<open>\<^verbatim>\<open>xs[start:stop]\<close>: both bounds are clamped into the list, never an error.\<close>

definition py_slice_bound :: "nat \<Rightarrow> int \<Rightarrow> nat" where
  "py_slice_bound n i = (if i < 0 then nat (max (int n + i) 0) else min (nat i) n)"

definition py_slice :: "'a list \<Rightarrow> int \<Rightarrow> int \<Rightarrow> 'a list" where
  "py_slice xs start stop =
     drop (py_slice_bound (length xs) start) (take (py_slice_bound (length xs) stop) xs)"

section \<open>Sharding the scene files between workers\<close>

text \<open>
  \<^verbatim>\<open>MotionPredictionDataset._split_filepaths_by_worker\<close>, over the dataset's
  \<^verbatim>\<open>_scene_file_paths\<close> (\<^verbatim>\<open>num_scenes\<close> is its length):
  \<^verbatim>\<open>
    n_scenes_per_worker = self.num_scenes // num_workers
    split = list(range(0, self.num_scenes, n_scenes_per_worker))
    start = split[worker_id]
    if worker_id == num_workers - 1:
        stop = self.num_scenes
    else:
        stop = split[worker_id + 1]
    return self._scene_file_paths[start:stop]
  \<close>
\<close>

definition split_filepaths_by_worker :: "'a list \<Rightarrow> int \<Rightarrow> int \<Rightarrow> error + 'a list" where
  "split_filepaths_by_worker scene_file_paths worker_id num_workers =
     (let num_scenes = int (length scene_file_paths) in
      case py_floordiv num_scenes num_workers of
        Inl e \<Rightarrow> Inl e
      | Inr n_scenes_per_worker \<Rightarrow>
     (case py_range 0 num_scenes n_scenes_per_worker of
        Inl e \<Rightarrow> Inl e
      | Inr split \<Rightarrow>
     (case py_getitem split worker_id of
        Inl e \<Rightarrow> Inl e
      | Inr start \<Rightarrow>
          if worker_id = num_workers - 1
          then Inr (py_slice scene_file_paths start num_scenes)
          else (case py_getitem split (worker_id + 1) of
                  Inl e \<Rightarrow> Inl e
                | Inr stop \<Rightarrow> Inr (py_slice scene_file_paths start stop)))))"

section \<open>Filters supplied by the caller\<close>

text \<open>
  What a caller may pass as \<^verbatim>\<open>scene_tags_filter\<close> or \<^verbatim>\<open>trajectory_tags_filter\<close>:
  \<^verbatim>\<open>None\<close>, an object that is not callable (with the text of its \<^verbatim>\<open>type\<close>), or a
  callable, taken as a total predicate whose result is read as a truth value.
\<close>

datatype 'a filter_arg = PyNone | NotCallable string | Callable "'a \<Rightarrow> bool"

definition trivial_filter :: "'a \<Rightarrow> bool" where
  "trivial_filter x = True"

definition callable_or_trivial_filter :: "'a filter_arg \<Rightarrow> error + ('a \<Rightarrow> bool)" where
  "callable_or_trivial_filter f =
     (case f of
        PyNone \<Rightarrow> Inr trivial_filter
      | NotCallable ty \<Rightarrow> Inl (ValueError (''Expected callable, got '' @ ty))
      | Callable g \<Rightarrow> Inr g)"

section \<open>Dictionaries, text and console output\<close>

text \<open>
  A Python \<^verbatim>\<open>dict\<close> keeps its keys in insertion order; assigning to a key that is
  present replaces the value where the key stands. \<^verbatim>\<open>d.update(other)\<close> assigns the
  items of \<open>other\<close> one after the other.
\<close>

type_synonym ('k, 'v) dict = "('k \<times> 'v) list"

fun dict_setitem :: "'k \<Rightarrow> 'v \<Rightarrow> ('k, 'v) dict \<Rightarrow> ('k, 'v) dict" where
  "dict_setitem k v [] = [(k, v)]"
| "dict_setitem k v ((k', v') # d) =
     (if k' = k then (k', v) # d else (k', v') # dict_setitem k v d)"

fun dict_update :: "('k, 'v) dict \<Rightarrow> ('k, 'v) dict \<Rightarrow> ('k, 'v) dict" where
  "dict_update d [] = d"
| "dict_update d ((k, v) # other) = dict_update (dict_setitem k v d) other"

definition dict_get :: "('k, 'v) dict \<Rightarrow> 'k \<Rightarrow> 'v option" where
  "dict_get d k = map_of d k"

text \<open>
  A \<open>char\<close> stands for a code point below 256. \<^verbatim>\<open>str.isspace\<close> is true of twelve of
  them: 9 to 13, 28 to 32, 133 (next line) and 160 (no-break space). \<^verbatim>\<open>str.strip()\<close>
  removes the leading and the trailing run of such characters.
\<close>

definition py_isspace :: "char \<Rightarrow> bool" where
  "py_isspace c =
     (let n = (of_char c :: nat)
      in (9 \<le> n \<and> n \<le> 13) \<or> (28 \<le> n \<and> n \<le> 32) \<or> n = 133 \<or> n = 160)"

definition strip :: "string \<Rightarrow> string" where
  "strip s = rev (dropWhile py_isspace (rev (dropWhile py_isspace s)))"

text \<open>\<^verbatim>\<open>str(n)\<close> for a length, as the f-string of \<^verbatim>\<open>_filter_paths\<close> formats it.\<close>

definition digit_char :: "nat \<Rightarrow> char" where
  "digit_char d = char_of (48 + d)"

fun str_nat :: "nat \<Rightarrow> string" where
  "str_nat n = (if n < 10 then [digit_char n] else str_nat (n div 10) @ [digit_char (n mod 10)])"

declare str_nat.simps [simp del]

text \<open>What the constructor does to the outside: the files it opens, the lines it prints.\<close>

datatype event = Open string | Print string

section \<open>The collaborators of the dataset\<close>

text \<open>
  \<^verbatim>\<open>dataset.py\<close> imports its helpers from \<^verbatim>\<open>..utils\<close> and \<^verbatim>\<open>..proto\<close>, reads the
  attributes \<^verbatim>\<open>prediction_requests\<close> and \<^verbatim>\<open>track_id\<close> of protobuf messages, parses with
  \<^verbatim>\<open>json.loads\<close> and reads text files. None of these is defined in the two source files;
  they are the fields of an environment, each a total function (an exception raised inside
  a collaborator is outside this model). \<open>files\<close> maps a path to the lines of the text
  file there. The type parameters are the scene, the prediction request, the track, the
  transform, the trajectory tags, the scene tags, and the values stored in an example.
\<close>

record ('scene, 'request, 'track, 'tf, 'ttags, 'stags, 'val) env =
  files :: "string \<rightharpoonup> string list"
  json_loads :: "string \<Rightarrow> 'stags option"
  get_file_paths :: "string \<Rightarrow> string list"
  read_scene :: "string \<Rightarrow> 'scene"
  prediction_requests :: "'scene \<Rightarrow> 'request list"
  track_id :: "'request \<Rightarrow> int"
  request_is_valid :: "'scene \<Rightarrow> 'request \<Rightarrow> bool"
  get_tags_from_request :: "'request \<Rightarrow> 'ttags"
  get_track_for_transform :: "'scene \<Rightarrow> int \<Rightarrow> 'track"
  get_to_track_frame_transform :: "'track \<Rightarrow> 'tf"
  get_gt_trajectory :: "'scene \<Rightarrow> int \<Rightarrow> 'val"
  transform2dpoints :: "'val \<Rightarrow> 'tf \<Rightarrow> 'val"

text \<open>
  Modelled from the spec: \<^verbatim>\<open>scenes_generator\<close> of \<^verbatim>\<open>..utils\<close> is not among the source
  files. The spec has the driver decode the scene files lazily, one scene at a time, each
  file opened, consumed and closed before the next, through \<^verbatim>\<open>decode(path) -> Scene\<close>: the
  scenes come in the order of the paths.
\<close>

definition scenes_generator ::
  "('scene, 'request, 'track, 'tf, 'ttags, 'stags, 'val) env \<Rightarrow> string list \<Rightarrow> 'scene list" where
  "scenes_generator U file_paths = map (read_scene U) file_paths"

section \<open>The dataset object\<close>

text \<open>The attributes \<^verbatim>\<open>__init__\<close> sets on \<^verbatim>\<open>self\<close> (their leading underscore dropped).\<close>

record ('scene, 'tf, 'ttags, 'stags, 'val) dataset =
  feature_producer :: "'scene \<Rightarrow> 'tf \<Rightarrow> (string, 'val) dict"
  transform_ground_truth_to_agent_frame :: bool
  scene_tags_filter :: "'stags \<Rightarrow> bool"
  trajectory_tags_filter :: "'ttags \<Rightarrow> bool"
  scene_file_paths :: "string list"

definition num_scenes :: "('scene, 'tf, 'ttags, 'stags, 'val) dataset \<Rightarrow> nat" where
  "num_scenes self = length (scene_file_paths self)"

section \<open>Filtering the scene files by their tags\<close>

text \<open>
  \<^verbatim>\<open>MotionPredictionDataset._filter_paths\<close>:
  \<^verbatim>\<open>
    valid_indices = []
    with open(scene_tags_fpath, 'r') as f:
        for i, line in enumerate(f):
            tags = json.loads(line.strip())
            if self._scene_tags_filter(tags):
                valid_indices.append(i)
    print(f'{len(valid_indices)}/{len(file_paths)} scenes fit the filter criteria.')
    return [file_paths[i] for i in valid_indices]
  \<close>
  \<open>scan_tags\<close> is the loop over the lines, with the counter of \<^verbatim>\<open>enumerate\<close> and the
  list \<^verbatim>\<open>valid_indices\<close> built so far; \<open>pick_paths\<close> is the final comprehension.
\<close>

fun scan_tags ::
  "(string \<Rightarrow> 'stags option) \<Rightarrow> ('stags \<Rightarrow> bool) \<Rightarrow> nat \<Rightarrow> string list \<Rightarrow> nat list
     \<Rightarrow> error + nat list" where
  "scan_tags loads flt i [] valid_indices = Inr valid_indices"
| "scan_tags loads flt i (line # f) valid_indices =
     (case loads (strip line) of
        None \<Rightarrow> Inl (JSONDecodeError (strip line))
      | Some tags \<Rightarrow>
          scan_tags loads flt (Suc i) f
            (if flt tags then valid_indices @ [i] else valid_indices))"

fun pick_paths :: "'a list \<Rightarrow> nat list \<Rightarrow> error + 'a list" where
  "pick_paths file_paths [] = Inr []"
| "pick_paths file_paths (i # valid_indices) =
     (case py_getitem file_paths (int i) of
        Inl e \<Rightarrow> Inl e
      | Inr p \<Rightarrow>
          (case pick_paths file_paths valid_indices of
             Inl e \<Rightarrow> Inl e
           | Inr ps \<Rightarrow> Inr (p # ps)))"

definition filter_paths ::
  "('scene, 'request, 'track, 'tf, 'ttags, 'stags, 'val) env \<Rightarrow> ('stags \<Rightarrow> bool) \<Rightarrow>
     string list \<Rightarrow> string \<Rightarrow> (error + string list) \<times> event list" where
  "filter_paths U flt file_paths scene_tags_fpath =
     (case files U scene_tags_fpath of
        None \<Rightarrow> (Inl (FileNotFoundError scene_tags_fpath), [Open scene_tags_fpath])
      | Some f \<Rightarrow>
          (case scan_tags (json_loads U) flt 0 f [] of
             Inl e \<Rightarrow> (Inl e, [Open scene_tags_fpath])
           | Inr valid_indices \<Rightarrow>
               (pick_paths file_paths valid_indices,
                [Open scene_tags_fpath,
                 Print (str_nat (length valid_indices) @ ''/'' @ str_nat (length file_paths)
                        @ '' scenes fit the filter criteria.'')])))"

section \<open>Constructing the dataset\<close>

text \<open>
  \<^verbatim>\<open>MotionPredictionDataset.__init__\<close>: both filters are checked first, then the path
  list is either the one handed in or the result of \<^verbatim>\<open>_filter_paths\<close> on the files under
  \<^verbatim>\<open>dataset_path\<close>. The result is the object or the exception, with what was opened and
  printed on the way.
\<close>

definition init ::
  "('scene, 'request, 'track, 'tf, 'ttags, 'stags, 'val) env \<Rightarrow> string \<Rightarrow> string \<Rightarrow>
     ('scene \<Rightarrow> 'tf \<Rightarrow> (string, 'val) dict) \<Rightarrow> bool \<Rightarrow> 'stags filter_arg \<Rightarrow> 'ttags filter_arg \<Rightarrow>
     string list option \<Rightarrow>
     (error + ('scene, 'tf, 'ttags, 'stags, 'val) dataset) \<times> event list" where
  "init U dataset_path scene_tags_fpath producer to_agent_frame scene_filter trajectory_filter
        pre_filtered_scene_file_paths =
     (case callable_or_trivial_filter scene_filter of
        Inl e \<Rightarrow> (Inl e, [])
      | Inr sf \<Rightarrow>
     (case callable_or_trivial_filter trajectory_filter of
        Inl e \<Rightarrow> (Inl e, [])
      | Inr tf \<Rightarrow>
     (case pre_filtered_scene_file_paths of
        Some paths \<Rightarrow>
          (Inr \<lparr> feature_producer = producer,
                 transform_ground_truth_to_agent_frame = to_agent_frame,
                 scene_tags_filter = sf, trajectory_tags_filter = tf,
                 scene_file_paths = paths \<rparr>,
           [Print ''Building MotionPredictionDataset with pre-filtered scene file paths.''])
      | None \<Rightarrow>
          (case filter_paths U sf (get_file_paths U dataset_path) scene_tags_fpath of
             (Inl e, events) \<Rightarrow> (Inl e, events)
           | (Inr paths, events) \<Rightarrow>
               (Inr \<lparr> feature_producer = producer,
                      transform_ground_truth_to_agent_frame = to_agent_frame,
                      scene_tags_filter = sf, trajectory_tags_filter = tf,
                      scene_file_paths = paths \<rparr>, events)))))"

section \<open>Iterating the dataset\<close>

text \<open>
  The body of the inner loop of \<^verbatim>\<open>data_gen\<close> once a request has passed both guards:
  \<^verbatim>\<open>
    track = get_track_for_transform(scene, request.track_id)
    to_track_frame_tf = get_to_track_frame_transform(track)
    ground_truth_trajectory = get_gt_trajectory(scene, request.track_id)
    if self._transform_ground_truth_to_agent_frame:
        ground_truth_trajectory = transform2dpoints(ground_truth_trajectory, to_track_frame_tf)
    result = {'ground_truth_trajectory': ground_truth_trajectory}
    result.update(self._feature_producer.produce_features(scene, to_track_frame_tf))
    yield result
  \<close>
\<close>

definition make_example ::
  "('scene, 'request, 'track, 'tf, 'ttags, 'stags, 'val) env \<Rightarrow>
     ('scene, 'tf, 'ttags, 'stags, 'val) dataset \<Rightarrow> 'scene \<Rightarrow> 'request \<Rightarrow> (string, 'val) dict" where
  "make_example U self scene request =
     (let track = get_track_for_transform U scene (track_id U request);
          to_track_frame_tf = get_to_track_frame_transform U track;
          ground_truth_trajectory = get_gt_trajectory U scene (track_id U request);
          ground_truth_trajectory =
            (if transform_ground_truth_to_agent_frame self
             then transform2dpoints U ground_truth_trajectory to_track_frame_tf
             else ground_truth_trajectory);
          result = [(''ground_truth_trajectory'', ground_truth_trajectory)]
      in dict_update result (feature_producer self scene to_track_frame_tf))"

text \<open>
  The two loops of \<^verbatim>\<open>data_gen\<close>; each \<^verbatim>\<open>continue\<close> goes on with the remaining requests,
  each \<^verbatim>\<open>yield\<close> puts one example in front of what the rest of the run yields.
\<close>

fun requests_loop ::
  "('scene, 'request, 'track, 'tf, 'ttags, 'stags, 'val) env \<Rightarrow>
     ('scene, 'tf, 'ttags, 'stags, 'val) dataset \<Rightarrow> 'scene \<Rightarrow> 'request list \<Rightarrow>
     (string, 'val) dict list" where
  "requests_loop U self scene [] = []"
| "requests_loop U self scene (request # rest) =
     (if \<not> request_is_valid U scene request then requests_loop U self scene rest
      else let trajectory_tags = get_tags_from_request U request in
        if \<not> trajectory_tags_filter self trajectory_tags then requests_loop U self scene rest
        else make_example U self scene request # requests_loop U self scene rest)"

fun scenes_loop ::
  "('scene, 'request, 'track, 'tf, 'ttags, 'stags, 'val) env \<Rightarrow>
     ('scene, 'tf, 'ttags, 'stags, 'val) dataset \<Rightarrow> 'scene list \<Rightarrow> (string, 'val) dict list" where
  "scenes_loop U self [] = []"
| "scenes_loop U self (scene # rest) =
     requests_loop U self scene (prediction_requests U scene) @ scenes_loop U self rest"

text \<open>
  \<^verbatim>\<open>data_gen(_file_paths)\<close> ignores its parameter and reads \<^verbatim>\<open>file_paths\<close> of the
  enclosing \<^verbatim>\<open>__iter__\<close>, which is also the argument it is called with.
\<close>

definition data_gen ::
  "('scene, 'request, 'track, 'tf, 'ttags, 'stags, 'val) env \<Rightarrow>
     ('scene, 'tf, 'ttags, 'stags, 'val) dataset \<Rightarrow> string list \<Rightarrow> (string, 'val) dict list" where
  "data_gen U self file_paths = scenes_loop U self (scenes_generator U file_paths)"

text \<open>
  \<^verbatim>\<open>torch.utils.data.get_worker_info()\<close> is \<^verbatim>\<open>None\<close> in the main process and carries
  \<^verbatim>\<open>id\<close> and \<^verbatim>\<open>num_workers\<close> in a worker.
\<close>

record worker_info =
  worker_id :: int
  num_workers :: int

text \<open>
  \<^verbatim>\<open>MotionPredictionDataset.__iter__\<close>: the shard is cut when the iterator is asked for,
  so an exception of \<^verbatim>\<open>_split_filepaths_by_worker\<close> is the outcome of the call; otherwise
  the outcome is the sequence of examples the generator yields.
\<close>

definition iter ::
  "('scene, 'request, 'track, 'tf, 'ttags, 'stags, 'val) env \<Rightarrow>
     ('scene, 'tf, 'ttags, 'stags, 'val) dataset \<Rightarrow> worker_info option \<Rightarrow>
     error + (string, 'val) dict list" where
  "iter U self info =
     (case info of
        None \<Rightarrow> Inr (data_gen U self (scene_file_paths self))
      | Some wi \<Rightarrow>
          (case split_filepaths_by_worker (scene_file_paths self) (worker_id wi) (num_workers wi) of
             Inl e \<Rightarrow> Inl e
           | Inr file_paths \<Rightarrow> Inr (data_gen U self file_paths)))"

section \<open>The renderer configuration\<close>

text \<open>
  \<^verbatim>\<open>RENDERER_CONFIG\<close> of \<^verbatim>\<open>sdc/constants.py\<close>. Each entry of \<^verbatim>\<open>renderers\<close> is a
  dictionary from an entity class to the list of its layers.
\<close>

record FeatureMapParams =
  rows :: int
  cols :: int
  resolution :: real

record TimeGridParams =
  start :: int
  stop :: int
  step :: int

record RenderersGroup =
  time_grid_params :: TimeGridParams
  renderers :: "(string, string list) dict list"

record RendererConfig =
  feature_map_params :: FeatureMapParams
  renderers_groups :: "RenderersGroup list"

definition RENDERER_CONFIG :: RendererConfig where
  "RENDERER_CONFIG =
     \<lparr> feature_map_params = \<lparr> rows = 400, cols = 400, resolution = 0.25 \<rparr>,
       renderers_groups = [
         \<lparr> time_grid_params = \<lparr> start = 0, stop = 0, step = 1 \<rparr>,
           renderers = [
             [(''vehicles'', [''occupancy'', ''velocity'', ''acceleration'', ''yaw''])],
             [(''pedestrians'', [''occupancy'', ''velocity''])]] \<rparr>,
         \<lparr> time_grid_params = \<lparr> start = 0, stop = 0, step = 1 \<rparr>,
           renderers = [
             [(''road_graph'', [
                ''crosswalk_occupancy'',
                ''crosswalk_availability'',
                ''lane_availability'',
                ''lane_direction'',
                ''lane_occupancy'',
                ''lane_priority'',
                ''lane_speed_limit'',
                ''road_polygons''])]] \<rparr>] \<rparr>"

section \<open>A concrete environment\<close>

text \<open>
  A small world on which the theorems below are exercised. A scene is named by its file,
  every scene holds the requests 0, 1 and 2, of which request 1 is not valid; values are
  texts. A tag file holds one record per line, and iterating over it yields each line with
  its newline. The parser of this world knows three JSON documents, the empty object and
  two objects with the one key \<^verbatim>\<open>track\<close>, and returns for each what \<^verbatim>\<open>json.loads\<close>
  returns, a dictionary from texts to texts; it refuses every other text. The theorems
  apply it to these three documents and to the text \<^verbatim>\<open>oops\<close>, which \<^verbatim>\<open>json.loads\<close>
  refuses as well.
\<close>

definition moscow :: string where
  "moscow = ''{\"track\": \"Moscow\"}''"

definition innopolis :: string where
  "innopolis = ''{\"track\": \"Innopolis\"}''"

definition tag_file :: "string list \<Rightarrow> string list" where
  "tag_file records = map (\<lambda>record. record @ ''\<newline>'') records"

definition sample_loads :: "string \<Rightarrow> (string, string) dict option" where
  "sample_loads s =
     (if s = ''{}'' then Some []
      else if s = moscow then Some [(''track'', ''Moscow'')]
      else if s = innopolis then Some [(''track'', ''Innopolis'')]
      else None)"

definition in_moscow :: "(string, string) dict \<Rightarrow> bool" where
  "in_moscow tags = (dict_get tags ''track'' = Some ''Moscow'')"

definition sample_env ::
  "(string \<rightharpoonup> string list) \<Rightarrow>
     (string, nat, nat, int, string list, (string, string) dict, string) env" where
  "sample_env fs =
     \<lparr> files = fs,
       json_loads = sample_loads,
       get_file_paths = (\<lambda>dir. [dir @ ''0.pb'', dir @ ''1.pb'', dir @ ''2.pb'']),
       read_scene = (\<lambda>path. path),
       prediction_requests = (\<lambda>scene. [0, 1, 2]),
       track_id = int,
       request_is_valid = (\<lambda>scene request. request \<noteq> 1),
       get_tags_from_request = (\<lambda>request. [''kMoveForward'']),
       get_track_for_transform = (\<lambda>scene tid. nat tid),
       get_to_track_frame_transform = int,
       get_gt_trajectory = (\<lambda>scene tid. scene @ ''#'' @ str_nat (nat tid)),
       transform2dpoints = (\<lambda>points tf. ''agent-frame '' @ points) \<rparr>"

definition sample_producer :: "string \<Rightarrow> int \<Rightarrow> (string, string) dict" where
  "sample_producer scene tf = [(''feature_maps'', ''maps of '' @ scene)]"

definition colliding_producer :: "string \<Rightarrow> int \<Rightarrow> (string, string) dict" where
  "colliding_producer scene tf =
     [(''feature_maps'', ''maps of '' @ scene), (''ground_truth_trajectory'', ''from the producer'')]"

section \<open>Sharding: every worker's range\<close>

text \<open>
  With at least one scene per worker the chunk is positive, \<^verbatim>\<open>split\<close> holds the multiples
  of the chunk below the number of scenes, and there are at least as many of them as
  workers.
\<close>

lemma py_range_chunks:
  assumes "0 < c"
  shows "py_range 0 (int n) (int c) = Inr (map (\<lambda>k. int (k * c)) [0..<(n + c - 1) div c])"
proof -
  have "(int n - 0 + int c - 1) div int c = int ((n + c - 1) div c)"
    using assms by (simp add: zdiv_int of_nat_diff)
  then show ?thesis
    using assms by (simp add: py_range_def)
qed

lemma chunk_count:
  fixes n W :: nat
  assumes "1 \<le> W" "W \<le> n"
  shows "W \<le> (n + n div W - 1) div (n div W)"
proof -
  let ?c = "n div W"
  have c: "0 < ?c" using assms by (simp add: div_greater_zero_iff)
  have "W * ?c \<le> n" by (simp add: mult.commute)
  then have "W * ?c \<le> n + ?c - 1" using c by linarith
  then have "W * ?c div ?c \<le> (n + ?c - 1) div ?c" by (rule div_le_mono)
  then show ?thesis using c by simp
qed

lemma py_getitem_nat:
  "k < length xs \<Longrightarrow> py_getitem xs (int k) = Inr (xs ! k)"
  by (simp add: py_getitem_def)

lemma py_slice_nat:
  "py_slice xs (int a) (int b) = drop a (take b xs)"
  by (simp add: py_slice_def py_slice_bound_def min_def)

lemma split_shard:
  assumes W: "1 \<le> W" "W \<le> length xs" and w: "w < W"
  shows "split_filepaths_by_worker xs (int w) (int W) =
         Inr (if w = W - 1 then drop (w * (length xs div W)) xs
              else take (length xs div W) (drop (w * (length xs div W)) xs))"
proof -
  let ?n = "length xs"
  let ?c = "?n div W"
  let ?split = "map (\<lambda>k. int (k * ?c)) [0..<(?n + ?c - 1) div ?c]"
  have c: "0 < ?c" using W by (simp add: div_greater_zero_iff)
  have len: "W \<le> length ?split" using chunk_count [OF W] by simp
  have fd: "py_floordiv (int ?n) (int W) = Inr (int ?c)"
    using W by (simp add: py_floordiv_def zdiv_int)
  have rg: "py_range 0 (int ?n) (int ?c) = Inr ?split"
    by (rule py_range_chunks [OF c])
  have at: "py_getitem ?split (int k) = Inr (int (k * ?c))" if "k < W" for k
  proof -
    have k: "k < (?n + ?c - 1) div ?c" using that len by simp
    then have "k < length ?split" by simp
    then have "py_getitem ?split (int k) = Inr (?split ! k)" by (rule py_getitem_nat)
    also have "?split ! k = int (k * ?c)" using k by simp
    finally show ?thesis .
  qed
  show ?thesis
  proof (cases "w = W - 1")
    case True
    then have eq: "int w = int W - 1" using W by (simp add: of_nat_diff)
    have A: "split_filepaths_by_worker xs (int w) (int W) = Inr (py_slice xs (int (w * ?c)) (int ?n))"
      using fd rg at [OF w] eq by (simp add: split_filepaths_by_worker_def Let_def)
    have B: "py_slice xs (int (w * ?c)) (int ?n) = drop (w * ?c) xs"
      unfolding py_slice_nat by simp
    show ?thesis unfolding A B using True by simp
  next
    case False
    then have ne: "int w \<noteq> int W - 1" using W by linarith
    have sw: "Suc w < W" using False w by linarith
    have nx: "py_getitem ?split (int w + 1) = Inr (int (Suc w * ?c))"
      using at [OF sw] by (simp add: add.commute)
    have A: "split_filepaths_by_worker xs (int w) (int W) =
          Inr (py_slice xs (int (w * ?c)) (int (Suc w * ?c)))"
      using fd rg at [OF w] ne nx by (simp add: split_filepaths_by_worker_def Let_def)
    have B: "py_slice xs (int (w * ?c)) (int (Suc w * ?c)) = take ?c (drop (w * ?c) xs)"
      unfolding py_slice_nat by (simp add: drop_take add.commute)
    show ?thesis unfolding A B using False by simp
  qed
qed

lemma concat_chunks:
  "concat (map (\<lambda>w. take c (drop (w * c) xs)) [0..<k]) = take (k * c) xs"
proof (induction k)
  case 0
  then show ?case by simp
next
  case (Suc k)
  have "take (k * c) xs @ take c (drop (k * c) xs) = take (k * c + c) xs"
    by (simp add: take_add)
  then show ?case using Suc by (simp add: add.commute)
qed


lemma map_nth_range:
  "b \<le> length xs \<Longrightarrow> map ((!) xs) [a..<b] = drop a (take b xs)"
  by (rule nth_equalityI) auto

lemma nth_ranges_disjoint:
  assumes "distinct xs" "b \<le> a'" "b' \<le> length xs"
  shows "set (map ((!) xs) [a..<b]) \<inter> set (map ((!) xs) [a'..<b']) = {}"
proof -
  have False if "a \<le> i" "i < b" "a' \<le> j" "j < b'" "xs ! i = xs ! j" for i j
  proof -
    have "i < length xs" "j < length xs" "i \<noteq> j" using that assms by auto
    then show False using that(5) assms(1) by (simp add: nth_eq_iff_index_eq)
  qed
  then show ?thesis by auto
qed

lemma split_shard_range:
  assumes W: "1 \<le> W" "W \<le> length xs" and w: "w < W"
  shows "split_filepaths_by_worker xs (int w) (int W) =
         Inr (map ((!) xs) [w * (length xs div W) ..<
                (if w = W - 1 then length xs else (w + 1) * (length xs div W))])"
proof -
  let ?c = "length xs div W"
  have "(w + 1) * ?c \<le> W * ?c" using w by (intro mult_le_mono1) simp
  also have "\<dots> \<le> length xs" by (simp add: mult.commute)
  finally have hi: "(w + 1) * ?c \<le> length xs" .
  have mid: "map ((!) xs) [w * ?c ..< (w + 1) * ?c] = take ?c (drop (w * ?c) xs)"
    using hi by (simp add: map_nth_range drop_take)
  have last: "map ((!) xs) [w * ?c ..< length xs] = drop (w * ?c) xs"
    by (simp add: map_nth_range)
  show ?thesis
  proof (cases "w = W - 1")
    case True
    then show ?thesis using split_shard [OF W w] last by simp
  next
    case False
    then show ?thesis using split_shard [OF W w] mid by simp
  qed
qed

text \<open>
  Claim C1. For a path list of length \<open>N \<ge> 1\<close> and \<open>W\<close> workers with \<open>1 \<le> W \<le> N\<close>,
  and \<open>chunk = N div W\<close>: worker \<open>w < W - 1\<close> receives the paths at the indices
  \<open>[w * chunk, (w + 1) * chunk)\<close>, the last worker those at \<open>[(W - 1) * chunk, N)\<close>; the
  shards put one after the other in worker order are the path list itself; every shard
  but the last has \<open>chunk\<close> elements; and the shards of different workers share no path
  (stated for a list without repetitions, such as the list of indices itself).
\<close>

theorem sharding_partition:
  assumes "1 \<le> W" and "W \<le> length xs"
  shows "(\<forall>w. w < W - 1 \<longrightarrow>
            split_filepaths_by_worker xs (int w) (int W) =
              Inr (map ((!) xs) [w * (length xs div W) ..< (w + 1) * (length xs div W)]))
       \<and> split_filepaths_by_worker xs (int (W - 1)) (int W) =
              Inr (map ((!) xs) [(W - 1) * (length xs div W) ..< length xs])
       \<and> concat (map (\<lambda>w. projr (split_filepaths_by_worker xs (int w) (int W))) [0..<W]) = xs
       \<and> (\<forall>w. w < W - 1 \<longrightarrow>
            length (projr (split_filepaths_by_worker xs (int w) (int W))) = length xs div W)
       \<and> (distinct xs \<longrightarrow> (\<forall>w v. w < W \<and> v < W \<and> w \<noteq> v \<longrightarrow>
            set (projr (split_filepaths_by_worker xs (int w) (int W))) \<inter>
            set (projr (split_filepaths_by_worker xs (int v) (int W))) = {}))"
proof -
  let ?c = "length xs div W"
  let ?hi = "\<lambda>w. if w = W - 1 then length xs else (w + 1) * ?c"
  let ?shard = "\<lambda>w. projr (split_filepaths_by_worker xs (int w) (int W))"
  note W = assms
  have rng: "split_filepaths_by_worker xs (int w) (int W) =
               Inr (map ((!) xs) [w * ?c ..< ?hi w])" if "w < W" for w
    using split_shard_range [OF W that] .
  have hi_le: "?hi w \<le> length xs" if "w < W" for w
  proof -
    have "(w + 1) * ?c \<le> W * ?c" using that by (intro mult_le_mono1) simp
    also have "\<dots> \<le> length xs" by (simp add: mult.commute)
    finally show ?thesis by simp
  qed
  have ordered: "?hi w \<le> v * ?c" if "w < v" "v < W" for w v
  proof -
    have "w \<noteq> W - 1" using that by linarith
    moreover have "(w + 1) * ?c \<le> v * ?c" using that by (intro mult_le_mono1) simp
    ultimately show ?thesis by simp
  qed
  have p1: "\<forall>w. w < W - 1 \<longrightarrow>
            split_filepaths_by_worker xs (int w) (int W) =
              Inr (map ((!) xs) [w * ?c ..< (w + 1) * ?c])"
  proof (intro allI impI)
    fix w assume "w < W - 1"
    then have "w < W" "w \<noteq> W - 1" by simp_all
    then show "split_filepaths_by_worker xs (int w) (int W) =
              Inr (map ((!) xs) [w * ?c ..< (w + 1) * ?c])"
      using rng [of w] by simp
  qed
  have p2: "split_filepaths_by_worker xs (int (W - 1)) (int W) =
              Inr (map ((!) xs) [(W - 1) * ?c ..< length xs])"
    using rng [of "W - 1"] W by simp
  have p3: "concat (map ?shard [0..<W]) = xs"
  proof -
    have sh: "?shard w = (if w = W - 1 then drop (w * ?c) xs else take ?c (drop (w * ?c) xs))"
      if "w < W" for w
      using split_shard [OF W that] by simp
    have up: "[0..<W] = [0..<W - 1] @ [W - 1]"
      using W by (metis Suc_diff_1 upt_Suc_append zero_le less_eq_Suc_le One_nat_def)
    have m: "map ?shard [0..<W - 1] = map (\<lambda>w. take ?c (drop (w * ?c) xs)) [0..<W - 1]"
      unfolding map_eq_conv using sh by auto
    have l: "?shard (W - 1) = drop ((W - 1) * ?c) xs"
      using sh [of "W - 1"] W by simp
    have "concat (map ?shard [0..<W]) = concat (map ?shard [0..<W - 1]) @ ?shard (W - 1)"
      by (subst up) simp
    also have "\<dots> =
        concat (map (\<lambda>w. take ?c (drop (w * ?c) xs)) [0..<W - 1]) @ drop ((W - 1) * ?c) xs"
      by (simp only: m l)
    also have "\<dots> = take ((W - 1) * ?c) xs @ drop ((W - 1) * ?c) xs"
      by (simp only: concat_chunks)
    finally show ?thesis by simp
  qed
  have p4: "\<forall>w. w < W - 1 \<longrightarrow> length (?shard w) = ?c"
  proof (intro allI impI)
    fix w assume lt: "w < W - 1"
    then have "w < W" by simp
    from hi_le [OF this] lt have "(w + 1) * ?c \<le> length xs" by simp
    then show "length (?shard w) = ?c" using p1 lt by simp
  qed
  have p5: "distinct xs \<longrightarrow> (\<forall>w v. w < W \<and> v < W \<and> w \<noteq> v \<longrightarrow>
            set (?shard w) \<inter> set (?shard v) = {})"
  proof (intro allI impI)
    fix w v assume d: "distinct xs" and wv: "w < W \<and> v < W \<and> w \<noteq> v"
    have dis: "set (?shard a) \<inter> set (?shard b) = {}" if "a < b" "b < W" for a b
    proof -
      have "a < W" using that by simp
      then show ?thesis
        using nth_ranges_disjoint [OF d ordered [OF that] hi_le [OF that(2)]]
        by (simp only: rng [OF \<open>a < W\<close>] rng [OF that(2)] sum.sel)
    qed
    from wv consider "w < v" | "v < w" by linarith
    then show "set (?shard w) \<inter> set (?shard v) = {}"
    proof cases
      case 1 then show ?thesis using dis wv by simp
    next
      case 2 then show ?thesis using dis [of v w] wv by (simp add: Int_commute)
    qed
  qed
  from p1 p2 p3 p4 p5 show ?thesis by (intro conjI)
qed


theorem sharding_partition_witness:
  "1 \<le> (3::nat) \<and> 3 \<le> length [''s0'', ''s1'', ''s2'', ''s3'', ''s4'', ''s5'', ''s6'']
   \<and> split_filepaths_by_worker [''s0'', ''s1'', ''s2'', ''s3'', ''s4'', ''s5'', ''s6''] 0 3
         = Inr [''s0'', ''s1'']
   \<and> split_filepaths_by_worker [''s0'', ''s1'', ''s2'', ''s3'', ''s4'', ''s5'', ''s6''] 1 3
         = Inr [''s2'', ''s3'']
   \<and> split_filepaths_by_worker [''s0'', ''s1'', ''s2'', ''s3'', ''s4'', ''s5'', ''s6''] 2 3
         = Inr [''s4'', ''s5'', ''s6'']"
proof -
  let ?xs = "[''s0'', ''s1'', ''s2'', ''s3'', ''s4'', ''s5'', ''s6'']"
  have h1: "1 \<le> (3::nat)" by simp
  have h2: "3 \<le> length ?xs" by simp
  note part = sharding_partition [OF h1 h2]
  have len: "length ?xs div 3 = 2" by simp
  from part have mid: "\<forall>w. w < 3 - 1 \<longrightarrow>
      split_filepaths_by_worker ?xs (int w) (int 3) =
        Inr (map ((!) ?xs) [w * (length ?xs div 3) ..< (w + 1) * (length ?xs div 3)])"
    by (rule conjunct1)
  from part have last: "split_filepaths_by_worker ?xs (int (3 - 1)) (int 3) =
      Inr (map ((!) ?xs) [(3 - 1) * (length ?xs div 3) ..< length ?xs])"
    by (elim conjE)
  have u02: "[0..<2] = [0, Suc 0]" and u24: "[2..<4] = [2, 3]" and u47: "[4..<7] = [4, 5, 6]"
    by (simp_all add: upt_rec)
  have "split_filepaths_by_worker ?xs 0 3 = Inr [''s0'', ''s1'']"
    using mid [rule_format, of 0] by (simp add: u02)
  moreover have "split_filepaths_by_worker ?xs 1 3 = Inr [''s2'', ''s3'']"
    using mid [rule_format, of 1] by (simp add: u24)
  moreover have "split_filepaths_by_worker ?xs 2 3 = Inr [''s4'', ''s5'', ''s6'']"
    using last by (simp add: u47)
  ultimately show ?thesis using h1 h2 by (intro conjI)
qed

section \<open>Sharding: more workers than scenes\<close>

text \<open>
  Claim C4. With more workers than scenes the chunk size is zero and every worker's
  request for its shard ends in the \<open>ValueError\<close> that \<^verbatim>\<open>range\<close> raises for a zero step:
  the method has no branch for this case, no worker receives a shard, and no policy
  (round-robin, empty shards, an error of the dataset's own) is in place.
\<close>

theorem sharding_more_workers_than_scenes:
  assumes "int (length xs) < W"
  shows "split_filepaths_by_worker xs w W = Inl (ValueError ''range() arg 3 must not be zero'')"
proof -
  have "W \<noteq> 0" using assms by linarith
  moreover have "int (length xs) div W = 0" using assms by (simp add: div_pos_pos_trivial)
  ultimately show ?thesis
    by (simp add: split_filepaths_by_worker_def py_floordiv_def py_range_def)
qed

theorem sharding_more_workers_than_scenes_witness:
  "int (length [''s0'', ''s1'']) < 3
   \<and> split_filepaths_by_worker [''s0'', ''s1''] 0 3
         = Inl (ValueError ''range() arg 3 must not be zero'')"
  using sharding_more_workers_than_scenes [of "[''s0'', ''s1'']" 3 0] by simp

section \<open>The concrete environment, evaluated\<close>

lemma sample_files [simp]: "files (sample_env fs) = fs"
  and sample_json_loads [simp]: "json_loads (sample_env fs) = sample_loads"
  by (simp_all add: sample_env_def)

lemma strip_line [simp]:
  "strip ''{}\<newline>'' = ''{}''"
  "strip ''oops\<newline>'' = ''oops''"
  "strip (moscow @ ''\<newline>'') = moscow"
  "strip (innopolis @ ''\<newline>'') = innopolis"
  by (simp_all add: strip_def py_isspace_def moscow_def innopolis_def)

lemma sample_loads_values [simp]:
  "sample_loads ''{}'' = Some []"
  "sample_loads moscow = Some [(''track'', ''Moscow'')]"
  "sample_loads innopolis = Some [(''track'', ''Innopolis'')]"
  "sample_loads ''oops'' = None"
  by (simp_all add: sample_loads_def moscow_def innopolis_def)

lemma in_moscow_values [simp]:
  "in_moscow [(''track'', ''Moscow'')]" "\<not> in_moscow [(''track'', ''Innopolis'')]" "\<not> in_moscow []"
  by (simp_all add: in_moscow_def dict_get_def)

lemma sample_scene [simp]:
  "read_scene (sample_env fs) path = path"
  "prediction_requests (sample_env fs) scene = [0, 1, 2]"
  "request_is_valid (sample_env fs) scene request \<longleftrightarrow> request \<noteq> 1"
  "get_tags_from_request (sample_env fs) request = [''kMoveForward'']"
  "get_file_paths (sample_env fs) dir = [dir @ ''0.pb'', dir @ ''1.pb'', dir @ ''2.pb'']"
  by (simp_all add: sample_env_def)

lemma sample_track [simp]:
  "track_id (sample_env fs) request = int request"
  "get_track_for_transform (sample_env fs) scene tid = nat tid"
  "get_to_track_frame_transform (sample_env fs) track = int track"
  "get_gt_trajectory (sample_env fs) scene tid = scene @ ''#'' @ str_nat (nat tid)"
  "transform2dpoints (sample_env fs) points tf = ''agent-frame '' @ points"
  by (simp_all add: sample_env_def)

lemma str_nat_digits [simp]: "str_nat 0 = ''0''" "str_nat 1 = ''1''" "str_nat 2 = ''2''"
  by code_simp+

section \<open>Tag filtering: what the loop and the comprehension compute\<close>

text \<open>
  When every line parses, the loop collects the indices of the accepted records in
  increasing order; the comprehension then reads the path at each of them, and fails on
  the first index that is not below the number of paths.
\<close>

lemma scan_tags_parsed:
  "map (\<lambda>line. loads (strip line)) f = map Some tags \<Longrightarrow>
   scan_tags loads flt i f acc =
     Inr (acc @ map (\<lambda>k. i + k) (filter (\<lambda>k. flt (tags ! k)) [0..<length tags]))"
proof (induction f arbitrary: i acc tags)
  case Nil
  then show ?case by simp
next
  case (Cons line f)
  then obtain t ts where tags: "tags = t # ts" and hd: "loads (strip line) = Some t"
    and tl: "map (\<lambda>line. loads (strip line)) f = map Some ts"
    by (cases tags) auto
  have up: "[0..<length tags] = 0 # map Suc [0..<length ts]"
    by (simp add: tags upt_conv_Cons map_Suc_upt del: upt_Suc)
  have rest: "filter (\<lambda>k. flt (tags ! k)) (map Suc [0..<length ts]) =
              map Suc (filter (\<lambda>k. flt (ts ! k)) [0..<length ts])"
    by (simp add: filter_map comp_def tags)
  show ?case
    by (simp add: hd Cons.IH [OF tl] up rest) (simp add: tags)
qed

lemma scan_tags_malformed:
  "\<forall>l \<in> set pre. loads (strip l) \<noteq> None \<Longrightarrow> loads (strip bad) = None \<Longrightarrow>
   scan_tags loads flt i (pre @ bad # post) acc = Inl (JSONDecodeError (strip bad))"
  by (induction pre arbitrary: i acc) auto

lemma pick_paths_in_range:
  "\<forall>i \<in> set valid. i < length ps \<Longrightarrow> pick_paths ps valid = Inr (map ((!) ps) valid)"
  by (induction valid) (simp_all add: py_getitem_def)

lemma pick_paths_out_of_range:
  "\<exists>i \<in> set valid. length ps \<le> i \<Longrightarrow> pick_paths ps valid = Inl IndexError"
proof (induction valid)
  case Nil
  then show ?case by simp
next
  case (Cons i valid)
  show ?case
  proof (cases "length ps \<le> i")
    case True
    then show ?thesis by (simp add: py_getitem_def)
  next
    case False
    then have "\<exists>i \<in> set valid. length ps \<le> i" using Cons.prems by auto
    then show ?thesis using Cons.IH False by (simp add: py_getitem_def)
  qed
qed

lemma accepted_indices_zip:
  assumes "\<forall>k < length tags. flt (tags ! k) \<longrightarrow> k < length ps"
  shows "map ((!) ps) (filter (\<lambda>k. flt (tags ! k)) [0..<length tags]) =
         map fst (filter (flt \<circ> snd) (zip ps tags))"
proof -
  let ?m = "min (length ps) (length tags)"
  have cut: "filter (\<lambda>k. flt (tags ! k)) [0..<length tags] = filter (\<lambda>k. flt (tags ! k)) [0..<?m]"
  proof -
    have "[0..<length tags] = [0..<?m] @ [?m..<length tags]"
      by (metis min.cobounded2 upt_add_eq_append zero_le le_add_diff_inverse)
    moreover have "filter (\<lambda>k. flt (tags ! k)) [?m..<length tags] = []"
      using assms by (fastforce simp: filter_empty_conv min_def split: if_splits)
    ultimately show ?thesis by (metis append_Nil2 filter_append)
  qed
  have z: "zip ps tags = map (\<lambda>k. (ps ! k, tags ! k)) [0..<?m]"
    by (rule nth_equalityI) auto
  show ?thesis
    unfolding cut z by (simp add: filter_map comp_def)
qed

lemma filter_paths_parsed:
  assumes "files U scene_tags_fpath = Some f"
    and "map (\<lambda>line. json_loads U (strip line)) f = map Some tags"
  shows "fst (filter_paths U flt ps scene_tags_fpath) =
           (if \<exists>k < length tags. length ps \<le> k \<and> flt (tags ! k) then Inl IndexError
            else Inr (map fst (filter (flt \<circ> snd) (zip ps tags))))"
proof -
  let ?valid = "filter (\<lambda>k. flt (tags ! k)) [0..<length tags]"
  have scan: "scan_tags (json_loads U) flt 0 f [] = Inr ?valid"
    using scan_tags_parsed [OF assms(2), of flt 0 "[]"] by simp
  have res: "fst (filter_paths U flt ps scene_tags_fpath) = pick_paths ps ?valid"
    by (simp add: filter_paths_def assms(1) scan)
  show ?thesis
  proof (cases "\<exists>k < length tags. length ps \<le> k \<and> flt (tags ! k)")
    case True
    then have "\<exists>i \<in> set ?valid. length ps \<le> i" by auto
    then show ?thesis using True res by (simp add: pick_paths_out_of_range)
  next
    case False
    then have ok: "\<forall>k < length tags. flt (tags ! k) \<longrightarrow> k < length ps"
      by (meson not_le)
    then have "\<forall>i \<in> set ?valid. i < length ps" by simp
    then have "pick_paths ps ?valid = Inr (map ((!) ps) ?valid)"
      by (rule pick_paths_in_range)
    then show ?thesis using False res accepted_indices_zip [OF ok] by simp
  qed
qed

section \<open>Tag filtering: a tag file and a path list of different lengths\<close>

text \<open>
  Claim C3, as amended. When the tag file parses and has no more records than there are
  paths, filtering pairs record \<open>i\<close> with path \<open>i\<close> and silently leaves out the paths
  beyond the last record. When it has more records than paths, filtering raises
  \<open>IndexError\<close> exactly when the predicate accepts a record whose index is not below the
  number of paths; only if every such record is rejected is the result again the
  selection from the records paired with the paths.
\<close>

theorem tag_file_length_mismatch:
  assumes "files U scene_tags_fpath = Some f"
    and "map (\<lambda>line. json_loads U (strip line)) f = map Some tags"
  shows "(length tags \<le> length ps \<longrightarrow>
            fst (filter_paths U flt ps scene_tags_fpath) =
              Inr (map fst (filter (flt \<circ> snd) (zip ps tags))))
       \<and> (length ps < length tags \<longrightarrow>
            fst (filter_paths U flt ps scene_tags_fpath) =
              (if \<exists>k. length ps \<le> k \<and> k < length tags \<and> flt (tags ! k) then Inl IndexError
               else Inr (map fst (filter (flt \<circ> snd) (zip ps tags)))))"
proof -
  have "(\<exists>k < length tags. length ps \<le> k \<and> flt (tags ! k)) \<longleftrightarrow>
        (\<exists>k. length ps \<le> k \<and> k < length tags \<and> flt (tags ! k))"
    by blast
  moreover have "\<not> (\<exists>k < length tags. length ps \<le> k \<and> flt (tags ! k))"
    if "length tags \<le> length ps"
    using that by auto
  ultimately show ?thesis
    using filter_paths_parsed [OF assms, of flt ps] by auto
qed

text \<open>
  As stated, the claim fails where the tag file is the longer one: one path, two records
  \<^verbatim>\<open>{}\<close>, the filter that accepts everything.
\<close>

theorem tag_file_length_mismatch_counterexample:
  "fst (filter_paths (sample_env [''tags.txt'' \<mapsto> tag_file [''{}'', ''{}'']]) trivial_filter
         [''p0''] ''tags.txt'') = Inl IndexError
   \<and> fst (filter_paths (sample_env [''tags.txt'' \<mapsto> tag_file [''{}'', ''{}'']]) trivial_filter
         [''p0''] ''tags.txt'') \<noteq> Inr [''p0'']"
  by (simp add: filter_paths_def py_getitem_def trivial_filter_def tag_file_def)

theorem tag_file_length_mismatch_witness:
  "files (sample_env [''tags.txt'' \<mapsto> tag_file [moscow, innopolis]]) ''tags.txt''
     = Some (tag_file [moscow, innopolis])
   \<and> map (\<lambda>line. json_loads (sample_env [''tags.txt'' \<mapsto> tag_file [moscow, innopolis]]) (strip line))
         (tag_file [moscow, innopolis])
       = map Some [[(''track'', ''Moscow'')], [(''track'', ''Innopolis'')]]
   \<and> length [[(''track'', ''Moscow'')], [(''track'', ''Innopolis'')]] \<le> length [''p0'', ''p1'', ''p2'']
   \<and> fst (filter_paths (sample_env [''tags.txt'' \<mapsto> tag_file [moscow, innopolis]])
         (\<lambda>t. \<not> in_moscow t) [''p0'', ''p1'', ''p2''] ''tags.txt'') = Inr [''p1'']
   \<and> length [''p0''] < length [[(''track'', ''Moscow'')], [(''track'', ''Innopolis'')]]
   \<and> fst (filter_paths (sample_env [''tags.txt'' \<mapsto> tag_file [moscow, innopolis]])
         (\<lambda>t. \<not> in_moscow t) [''p0''] ''tags.txt'') = Inl IndexError
   \<and> fst (filter_paths (sample_env [''tags.txt'' \<mapsto> tag_file [moscow, innopolis]])
         in_moscow [''p0''] ''tags.txt'') = Inr [''p0'']"
proof -
  let ?U = "sample_env [''tags.txt'' \<mapsto> tag_file [moscow, innopolis]]"
  let ?tags = "[[(''track'', ''Moscow'')], [(''track'', ''Innopolis'')]]"
  have h1: "files ?U ''tags.txt'' = Some (tag_file [moscow, innopolis])" by simp
  have h2: "map (\<lambda>line. json_loads ?U (strip line)) (tag_file [moscow, innopolis]) = map Some ?tags"
    by (simp add: tag_file_def)
  note m = tag_file_length_mismatch [OF h1 h2]
  have short: "length ?tags \<le> length [''p0'', ''p1'', ''p2'']" by simp
  have long: "length [''p0''] < length ?tags" by simp
  have r1: "fst (filter_paths ?U (\<lambda>t. \<not> in_moscow t) [''p0'', ''p1'', ''p2''] ''tags.txt'')
              = Inr [''p1'']"
    using m [of "[''p0'', ''p1'', ''p2'']" "\<lambda>t. \<not> in_moscow t"] short by simp
  have ex: "\<exists>k. length [''p0''] \<le> k \<and> k < length ?tags \<and> \<not> in_moscow (?tags ! k)"
    by (rule exI [of _ 1]) simp
  have r2: "fst (filter_paths ?U (\<lambda>t. \<not> in_moscow t) [''p0''] ''tags.txt'') = Inl IndexError"
    using m [of "[''p0'']" "\<lambda>t. \<not> in_moscow t"] long ex by simp
  have nex: "\<not> (\<exists>k. length [''p0''] \<le> k \<and> k < length ?tags \<and> in_moscow (?tags ! k))"
  proof
    assume "\<exists>k. length [''p0''] \<le> k \<and> k < length ?tags \<and> in_moscow (?tags ! k)"
    then obtain k where "1 \<le> k" "k < 2" and acc: "in_moscow (?tags ! k)" by auto
    then have "k = 1" by simp
    with acc show False by simp
  qed
  have r3: "fst (filter_paths ?U in_moscow [''p0''] ''tags.txt'') = Inr [''p0'']"
    using m [of "[''p0'']" in_moscow] long nex by simp
  from h1 h2 short r1 long r2 r3 show ?thesis by (intro conjI)
qed

section \<open>Tag filtering: selection in order\<close>

text \<open>
  Claim C5. For \<open>N\<close> paths and a tag file of \<open>N\<close> records that parse, filtering returns
  the paths whose record the predicate accepts, a subsequence of the path list in its
  original order; with a predicate that is always true, and with the filter that stands
  in when the caller passes none, the result is the path list unchanged.
\<close>

theorem tag_index_selection:
  fixes U :: "('scene, 'request, 'track, 'tf, 'ttags, 'stags, 'val) env"
  assumes "files U scene_tags_fpath = Some f"
    and "map (\<lambda>line. json_loads U (strip line)) f = map Some tags"
    and "length f = length ps"
  shows "fst (filter_paths U flt ps scene_tags_fpath) =
           Inr (map fst (filter (flt \<circ> snd) (zip ps tags)))
       \<and> subseq (map fst (filter (flt \<circ> snd) (zip ps tags))) ps
       \<and> fst (filter_paths U (\<lambda>tags. True) ps scene_tags_fpath) = Inr ps
       \<and> callable_or_trivial_filter (PyNone :: 'stags filter_arg) = Inr trivial_filter
       \<and> fst (filter_paths U trivial_filter ps scene_tags_fpath) = Inr ps"
proof -
  have len: "length tags = length ps"
    using assms(2,3) by (metis length_map)
  then have none: "\<not> (\<exists>k < length tags. length ps \<le> k \<and> g (tags ! k))" for g :: "'stags \<Rightarrow> bool"
    by auto
  have sel: "fst (filter_paths U g ps scene_tags_fpath) =
               Inr (map fst (filter (g \<circ> snd) (zip ps tags)))" for g
    using filter_paths_parsed [OF assms(1,2), of g ps] none [of g] by simp
  have all: "map fst (filter ((\<lambda>tags. True) \<circ> snd) (zip ps tags)) = ps"
    using len by simp
  have "subseq (map fst (filter (flt \<circ> snd) (zip ps tags))) (map fst (zip ps tags))"
    by (intro subseq_map subseq_filter_left)
  then have sub: "subseq (map fst (filter (flt \<circ> snd) (zip ps tags))) ps"
    using len by simp
  have every: "fst (filter_paths U (\<lambda>tags. True) ps scene_tags_fpath) = Inr ps"
    using sel [of "\<lambda>tags. True"] all by simp
  have triv: "(trivial_filter :: 'stags \<Rightarrow> bool) = (\<lambda>tags. True)"
    by (simp add: trivial_filter_def fun_eq_iff)
  have dflt: "callable_or_trivial_filter (PyNone :: 'stags filter_arg) = Inr trivial_filter"
    by (simp add: callable_or_trivial_filter_def)
  from sel [of flt] sub every dflt show ?thesis
    unfolding triv by (intro conjI)
qed

theorem tag_index_selection_witness:
  "files (sample_env [''tags.txt'' \<mapsto> tag_file [moscow, innopolis, moscow]]) ''tags.txt''
     = Some (tag_file [moscow, innopolis, moscow])
   \<and> map (\<lambda>line. json_loads (sample_env [''tags.txt'' \<mapsto> tag_file [moscow, innopolis, moscow]])
                     (strip line)) (tag_file [moscow, innopolis, moscow])
       = map Some [[(''track'', ''Moscow'')], [(''track'', ''Innopolis'')], [(''track'', ''Moscow'')]]
   \<and> length (tag_file [moscow, innopolis, moscow]) = length [''p0'', ''p1'', ''p2'']
   \<and> fst (filter_paths (sample_env [''tags.txt'' \<mapsto> tag_file [moscow, innopolis, moscow]])
         in_moscow [''p0'', ''p1'', ''p2''] ''tags.txt'') = Inr [''p0'', ''p2'']
   \<and> fst (filter_paths (sample_env [''tags.txt'' \<mapsto> tag_file [moscow, innopolis, moscow]])
         trivial_filter [''p0'', ''p1'', ''p2''] ''tags.txt'') = Inr [''p0'', ''p1'', ''p2'']"
proof -
  let ?f = "tag_file [moscow, innopolis, moscow]"
  let ?U = "sample_env [''tags.txt'' \<mapsto> ?f]"
  let ?tags = "[[(''track'', ''Moscow'')], [(''track'', ''Innopolis'')], [(''track'', ''Moscow'')]]"
  let ?ps = "[''p0'', ''p1'', ''p2'']"
  have h1: "files ?U ''tags.txt'' = Some ?f" by simp
  have h2: "map (\<lambda>line. json_loads ?U (strip line)) ?f = map Some ?tags"
    by (simp add: tag_file_def)
  have h3: "length ?f = length ?ps" by (simp add: tag_file_def)
  note sel = tag_index_selection [OF h1 h2 h3]
  have r1: "fst (filter_paths ?U in_moscow ?ps ''tags.txt'') = Inr [''p0'', ''p2'']"
    using sel [of in_moscow] by simp
  have r2: "fst (filter_paths ?U trivial_filter ?ps ''tags.txt'') = Inr ?ps"
    using sel [of trivial_filter] by (elim conjE)
  from h1 h2 h3 r1 r2 show ?thesis by (intro conjI)
qed

section \<open>Tag filtering: a record that does not parse\<close>

text \<open>
  Claim C6, as amended. When a record of the tag file does not parse, the whole of
  \<^verbatim>\<open>_filter_paths\<close> fails at the first such record with the \<open>JSONDecodeError\<close> of
  \<^verbatim>\<open>json.loads\<close>, which carries the text of the record and not its line number; no path
  list is returned and nothing is printed.
\<close>

theorem tag_parse_failure:
  assumes "files U scene_tags_fpath = Some (pre @ bad # post)"
    and "\<forall>l \<in> set pre. json_loads U (strip l) \<noteq> None"
    and "json_loads U (strip bad) = None"
  shows "filter_paths U flt ps scene_tags_fpath =
           (Inl (JSONDecodeError (strip bad)), [Open scene_tags_fpath])"
  using assms by (simp add: filter_paths_def scan_tags_malformed)

text \<open>
  As stated, the claim fails on the error: it is the parser's own, and it is the same
  whether the record that does not parse is the first or the second of the file.
\<close>

theorem tag_parse_failure_counterexample:
  "fst (filter_paths (sample_env [''tags.txt'' \<mapsto> tag_file [''oops'', ''{}'']]) trivial_filter
         [''p0'', ''p1''] ''tags.txt'') = Inl (JSONDecodeError ''oops'')
   \<and> fst (filter_paths (sample_env [''tags.txt'' \<mapsto> tag_file [''{}'', ''oops'']]) trivial_filter
         [''p0'', ''p1''] ''tags.txt'') = Inl (JSONDecodeError ''oops'')"
  by (simp add: filter_paths_def tag_file_def)

theorem tag_parse_failure_witness:
  "files (sample_env [''tags.txt'' \<mapsto> tag_file [moscow, ''oops'', innopolis]]) ''tags.txt''
     = Some ([moscow @ ''\<newline>''] @ ''oops\<newline>'' # [innopolis @ ''\<newline>''])
   \<and> json_loads (sample_env [''tags.txt'' \<mapsto> tag_file [moscow, ''oops'', innopolis]])
         (strip (moscow @ ''\<newline>'')) \<noteq> None
   \<and> json_loads (sample_env [''tags.txt'' \<mapsto> tag_file [moscow, ''oops'', innopolis]])
         (strip ''oops\<newline>'') = None
   \<and> filter_paths (sample_env [''tags.txt'' \<mapsto> tag_file [moscow, ''oops'', innopolis]])
        trivial_filter [''p0'', ''p1'', ''p2''] ''tags.txt''
       = (Inl (JSONDecodeError ''oops''), [Open ''tags.txt''])"
proof -
  let ?U = "sample_env [''tags.txt'' \<mapsto> tag_file [moscow, ''oops'', innopolis]]"
  have h1: "files ?U ''tags.txt''
              = Some ([moscow @ ''\<newline>''] @ ''oops\<newline>'' # [innopolis @ ''\<newline>''])"
    by (simp add: tag_file_def)
  have h2: "\<forall>l \<in> set [moscow @ ''\<newline>'']. json_loads ?U (strip l) \<noteq> None" by simp
  have h3: "json_loads ?U (strip ''oops\<newline>'') = None" by simp
  have r: "filter_paths ?U trivial_filter [''p0'', ''p1'', ''p2''] ''tags.txt'' =
             (Inl (JSONDecodeError ''oops''), [Open ''tags.txt''])"
    using tag_parse_failure [OF h1 h2 h3, of trivial_filter "[''p0'', ''p1'', ''p2'']"] by simp
  from h2 have h2': "json_loads ?U (strip (moscow @ ''\<newline>'')) \<noteq> None" by simp
  from h1 h2' h3 r show ?thesis by (intro conjI)
qed

section \<open>Iteration: requests that are skipped, and the order of the examples\<close>

lemma requests_loop_filter:
  "requests_loop U self scene rs =
     map (make_example U self scene)
       (filter (\<lambda>r. request_is_valid U scene r \<and>
                     trajectory_tags_filter self (get_tags_from_request U r)) rs)"
  by (induction rs) (simp_all add: Let_def)

lemma scenes_loop_concat:
  "scenes_loop U self scenes =
     concat (map (\<lambda>scene. requests_loop U self scene (prediction_requests U scene)) scenes)"
  by (induction scenes) simp_all

text \<open>
  Claim C2. The generator yields, for the scene files in their order and within each
  scene for its requests in their order, one example for every request that is valid and
  whose tags pass the trajectory filter; the other requests are passed over. Outside a
  worker the files are the whole path list, in a worker they are the worker's shard. A scene with three requests of which the
  second is not valid yields two examples, for the first and the third request in that
  order.
\<close>

theorem iteration_skips_invalid_requests:
  "data_gen U self file_paths =
     concat (map (\<lambda>path. map (make_example U self (read_scene U path))
                    (filter (\<lambda>r. request_is_valid U (read_scene U path) r \<and>
                                  trajectory_tags_filter self (get_tags_from_request U r))
                       (prediction_requests U (read_scene U path)))) file_paths)
   \<and> iter U self None = Inr (data_gen U self (scene_file_paths self))
   \<and> (split_filepaths_by_worker (scene_file_paths self) (worker_id wi) (num_workers wi) = Inr shard
      \<longrightarrow> iter U self (Some wi) = Inr (data_gen U self shard))
   \<and> (prediction_requests U (read_scene U path) = [r0, r1, r2]
        \<and> \<not> request_is_valid U (read_scene U path) r1
        \<and> request_is_valid U (read_scene U path) r0
        \<and> trajectory_tags_filter self (get_tags_from_request U r0)
        \<and> request_is_valid U (read_scene U path) r2
        \<and> trajectory_tags_filter self (get_tags_from_request U r2)
      \<longrightarrow> data_gen U self [path] =
            [make_example U self (read_scene U path) r0,
             make_example U self (read_scene U path) r2])"
proof -
  have gen: "data_gen U self ps =
     concat (map (\<lambda>path. map (make_example U self (read_scene U path))
                    (filter (\<lambda>r. request_is_valid U (read_scene U path) r \<and>
                                  trajectory_tags_filter self (get_tags_from_request U r))
                       (prediction_requests U (read_scene U path)))) ps)" for ps
    by (simp add: data_gen_def scenes_generator_def scenes_loop_concat requests_loop_filter
        comp_def)
  have main: "iter U self None = Inr (data_gen U self (scene_file_paths self))"
    by (simp add: iter_def)
  have worker: "iter U self (Some wi) = Inr (data_gen U self shard)"
    if "split_filepaths_by_worker (scene_file_paths self) (worker_id wi) (num_workers wi) = Inr shard"
    using that by (simp add: iter_def)
  have three: "data_gen U self [path] =
            [make_example U self (read_scene U path) r0,
             make_example U self (read_scene U path) r2]"
    if "prediction_requests U (read_scene U path) = [r0, r1, r2]"
      "\<not> request_is_valid U (read_scene U path) r1"
      "request_is_valid U (read_scene U path) r0"
      "trajectory_tags_filter self (get_tags_from_request U r0)"
      "request_is_valid U (read_scene U path) r2"
      "trajectory_tags_filter self (get_tags_from_request U r2)"
    using that by (simp add: gen)
  from gen [of file_paths] main worker three show ?thesis by blast
qed

theorem iteration_skips_invalid_requests_witness:
  "prediction_requests (sample_env Map.empty) (read_scene (sample_env Map.empty) ''s0'') = [0, 1, 2]
   \<and> \<not> request_is_valid (sample_env Map.empty) (read_scene (sample_env Map.empty) ''s0'') 1
   \<and> request_is_valid (sample_env Map.empty) (read_scene (sample_env Map.empty) ''s0'') 0
   \<and> request_is_valid (sample_env Map.empty) (read_scene (sample_env Map.empty) ''s0'') 2
   \<and> data_gen (sample_env Map.empty)
        \<lparr> feature_producer = sample_producer, transform_ground_truth_to_agent_frame = False,
          scene_tags_filter = trivial_filter, trajectory_tags_filter = trivial_filter,
          scene_file_paths = [''s0'', ''s1''] \<rparr> [''s0'']
       = [[(''ground_truth_trajectory'', ''s0#0''), (''feature_maps'', ''maps of s0'')],
          [(''ground_truth_trajectory'', ''s0#2''), (''feature_maps'', ''maps of s0'')]]
   \<and> split_filepaths_by_worker [''s0'', ''s1''] 0 2 = Inr [''s0'']
   \<and> iter (sample_env Map.empty)
        \<lparr> feature_producer = sample_producer, transform_ground_truth_to_agent_frame = False,
          scene_tags_filter = trivial_filter, trajectory_tags_filter = trivial_filter,
          scene_file_paths = [''s0'', ''s1''] \<rparr> (Some \<lparr> worker_id = 0, num_workers = 2 \<rparr>)
       = Inr [[(''ground_truth_trajectory'', ''s0#0''), (''feature_maps'', ''maps of s0'')],
              [(''ground_truth_trajectory'', ''s0#2''), (''feature_maps'', ''maps of s0'')]]"
proof -
  let ?U = "sample_env Map.empty "
  let ?d = "\<lparr> feature_producer = sample_producer, transform_ground_truth_to_agent_frame = False,
          scene_tags_filter = (trivial_filter :: (string, string) dict \<Rightarrow> bool),
          trajectory_tags_filter = (trivial_filter :: string list \<Rightarrow> bool),
          scene_file_paths = [''s0'', ''s1''] \<rparr>"
  let ?wi = "\<lparr> worker_id = 0, num_workers = 2 \<rparr>"
  note inst = iteration_skips_invalid_requests [of ?U ?d _ ?wi "[''s0'']" "''s0''" 0 1 2]
  have h: "prediction_requests ?U (read_scene ?U ''s0'') = [0, 1, 2]
        \<and> \<not> request_is_valid ?U (read_scene ?U ''s0'') 1
        \<and> request_is_valid ?U (read_scene ?U ''s0'') 0
        \<and> trajectory_tags_filter ?d (get_tags_from_request ?U 0)
        \<and> request_is_valid ?U (read_scene ?U ''s0'') 2
        \<and> trajectory_tags_filter ?d (get_tags_from_request ?U 2)"
    by (simp add: trivial_filter_def)
  have sh: "split_filepaths_by_worker [''s0'', ''s1''] 0 2 = Inr [''s0'']"
    by (simp add: split_filepaths_by_worker_def py_floordiv_def py_range_def py_getitem_def
        py_slice_def py_slice_bound_def upt_rec)
  then have sh': "split_filepaths_by_worker (scene_file_paths ?d) (worker_id ?wi) (num_workers ?wi)
                    = Inr [''s0'']"
    by simp
  have gen: "data_gen ?U ?d [''s0''] =
          [make_example ?U ?d (read_scene ?U ''s0'') 0, make_example ?U ?d (read_scene ?U ''s0'') 2]"
    using inst h by blast
  have it: "iter ?U ?d (Some ?wi) = Inr (data_gen ?U ?d [''s0''])"
    using inst sh' by blast
  have e0: "make_example ?U ?d (read_scene ?U ''s0'') 0 =
      [(''ground_truth_trajectory'', ''s0#0''), (''feature_maps'', ''maps of s0'')]"
    by (simp add: make_example_def sample_producer_def)
  have e2: "make_example ?U ?d (read_scene ?U ''s0'') 2 =
      [(''ground_truth_trajectory'', ''s0#2''), (''feature_maps'', ''maps of s0'')]"
    by (simp add: make_example_def sample_producer_def)
  from gen it e0 e2 h sh show ?thesis by simp
qed

section \<open>Construction from a path list filtered beforehand\<close>

text \<open>
  \<^verbatim>\<open>__iter__\<close> reads the producer, the flag, the trajectory filter and the path list of
  the dataset, and never its scene filter.
\<close>

lemma make_example_reads:
  assumes "feature_producer d' = feature_producer d"
    and "transform_ground_truth_to_agent_frame d' = transform_ground_truth_to_agent_frame d"
  shows "make_example E d' scene request = make_example E d scene request"
  using assms by (simp add: make_example_def)

lemma data_gen_reads:
  assumes "feature_producer d' = feature_producer d"
    and "transform_ground_truth_to_agent_frame d' = transform_ground_truth_to_agent_frame d"
    and "trajectory_tags_filter d' = trajectory_tags_filter d"
  shows "data_gen E d' file_paths = data_gen E d file_paths"
proof -
  have "make_example E d' = make_example E d"
    by (intro ext) (rule make_example_reads [OF assms(1,2)])
  then show ?thesis
    by (simp add: data_gen_def scenes_loop_concat requests_loop_filter assms(3))
qed

lemma iter_reads:
  assumes "feature_producer d' = feature_producer d"
    and "transform_ground_truth_to_agent_frame d' = transform_ground_truth_to_agent_frame d"
    and "trajectory_tags_filter d' = trajectory_tags_filter d"
    and "scene_file_paths d' = scene_file_paths d"
  shows "iter E d' info = iter E d info"
  by (cases info)
    (simp_all add: iter_def assms(4) data_gen_reads [OF assms(1,2,3)] split: sum.splits)

text \<open>
  Claim C7. If construction through the tag file succeeds with the path list \<open>L\<close>, then
  construction with \<^verbatim>\<open>pre_filtered_scene_file_paths = L\<close>, the same producer, flag and
  trajectory filter, and any scene filter that is \<^verbatim>\<open>None\<close> or callable, succeeds whatever
  the file system, the dataset path and the tag file path are, with the same path list:
  the same \<^verbatim>\<open>num_scenes\<close> and the same outcome of \<^verbatim>\<open>__iter__\<close> for every worker and
  every environment; with the same scene filter the two objects are equal. Construction
  from a path list opens no file, for any arguments.
\<close>

theorem pre_filtered_mode_equivalence:
  assumes "fst (init U dataset_path scene_tags_fpath producer to_agent_frame
                  scene_filter trajectory_filter None) = Inr d"
    and "scene_file_paths d = L"
    and "callable_or_trivial_filter scene_filter' = Inr sf'"
  shows "(\<exists>d'. init U' dataset_path' scene_tags_fpath' producer to_agent_frame
                  scene_filter' trajectory_filter (Some L)
                = (Inr d', [Print ''Building MotionPredictionDataset with pre-filtered scene file paths.''])
             \<and> scene_file_paths d' = L
             \<and> num_scenes d' = num_scenes d
             \<and> (\<forall>E info. iter E d' info = iter E d info)
             \<and> (scene_filter' = scene_filter \<longrightarrow> d' = d))
       \<and> Open p \<notin> set (snd (init U' dataset_path' scene_tags_fpath' producer' to_agent_frame'
                                scene_filter'' trajectory_filter' (Some L')))"
proof -
  obtain sf where sf: "callable_or_trivial_filter scene_filter = Inr sf"
    using assms(1) by (cases "callable_or_trivial_filter scene_filter") (simp_all add: init_def)
  obtain tf where tf: "callable_or_trivial_filter trajectory_filter = Inr tf"
    using assms(1) sf
    by (cases "callable_or_trivial_filter trajectory_filter") (simp_all add: init_def)
  have d: "d = \<lparr> feature_producer = producer,
              transform_ground_truth_to_agent_frame = to_agent_frame,
              scene_tags_filter = sf, trajectory_tags_filter = tf,
              scene_file_paths = L \<rparr>"
    using assms(1,2) sf tf
    by (auto simp: init_def split: prod.splits sum.splits)
  let ?d' = "\<lparr> feature_producer = producer,
              transform_ground_truth_to_agent_frame = to_agent_frame,
              scene_tags_filter = sf', trajectory_tags_filter = tf,
              scene_file_paths = L \<rparr>"
  have built: "init U' dataset_path' scene_tags_fpath' producer to_agent_frame
                  scene_filter' trajectory_filter (Some L)
             = (Inr ?d', [Print ''Building MotionPredictionDataset with pre-filtered scene file paths.''])"
    using assms(3) tf by (simp add: init_def)
  have paths: "scene_file_paths ?d' = L" by simp
  have count: "num_scenes ?d' = num_scenes d" by (simp add: num_scenes_def d)
  have same_iter: "\<forall>E info. iter E ?d' info = iter E d info"
    by (intro allI iter_reads) (simp_all add: d)
  have same_obj: "scene_filter' = scene_filter \<longrightarrow> ?d' = d"
    using assms(3) sf by (auto simp: d)
  have quiet: "Open p \<notin> set (snd (init U' dataset_path' scene_tags_fpath' producer' to_agent_frame'
                                scene_filter'' trajectory_filter' (Some L')))"
    by (simp add: init_def split: sum.splits)
  from built paths count same_iter same_obj
  have "\<exists>d'. init U' dataset_path' scene_tags_fpath' producer to_agent_frame
                  scene_filter' trajectory_filter (Some L)
                = (Inr d', [Print ''Building MotionPredictionDataset with pre-filtered scene file paths.''])
             \<and> scene_file_paths d' = L
             \<and> num_scenes d' = num_scenes d
             \<and> (\<forall>E info. iter E d' info = iter E d info)
             \<and> (scene_filter' = scene_filter \<longrightarrow> d' = d)"
    by (intro exI [of _ ?d'] conjI)
  with quiet show ?thesis by (intro conjI)
qed

theorem pre_filtered_mode_equivalence_witness:
  "fst (init (sample_env [''tags.txt'' \<mapsto> tag_file [moscow, innopolis, moscow]]) ''d/'' ''tags.txt''
          sample_producer True (Callable in_moscow) PyNone None)
     = Inr \<lparr> feature_producer = sample_producer, transform_ground_truth_to_agent_frame = True,
             scene_tags_filter = in_moscow, trajectory_tags_filter = trivial_filter,
             scene_file_paths = [''d/0.pb'', ''d/2.pb''] \<rparr>
   \<and> callable_or_trivial_filter (PyNone :: (string, string) dict filter_arg) = Inr trivial_filter
   \<and> init (sample_env Map.empty) ''elsewhere/'' ''missing.txt''
          sample_producer True PyNone PyNone (Some [''d/0.pb'', ''d/2.pb''])
     = (Inr \<lparr> feature_producer = sample_producer, transform_ground_truth_to_agent_frame = True,
              scene_tags_filter = trivial_filter, trajectory_tags_filter = trivial_filter,
              scene_file_paths = [''d/0.pb'', ''d/2.pb''] \<rparr>,
        [Print ''Building MotionPredictionDataset with pre-filtered scene file paths.''])
   \<and> iter (sample_env Map.empty)
        \<lparr> feature_producer = sample_producer, transform_ground_truth_to_agent_frame = True,
          scene_tags_filter = trivial_filter, trajectory_tags_filter = trivial_filter,
          scene_file_paths = [''d/0.pb'', ''d/2.pb''] \<rparr> (Some \<lparr> worker_id = 1, num_workers = 2 \<rparr>)
     = iter (sample_env Map.empty)
        \<lparr> feature_producer = sample_producer, transform_ground_truth_to_agent_frame = True,
          scene_tags_filter = in_moscow, trajectory_tags_filter = trivial_filter,
          scene_file_paths = [''d/0.pb'', ''d/2.pb''] \<rparr> (Some \<lparr> worker_id = 1, num_workers = 2 \<rparr>)"
proof -
  let ?U = "sample_env [''tags.txt'' \<mapsto> tag_file [moscow, innopolis, moscow]]"
  let ?V = "sample_env Map.empty"
  let ?d = "\<lparr> feature_producer = sample_producer, transform_ground_truth_to_agent_frame = True,
             scene_tags_filter = in_moscow,
             trajectory_tags_filter = (trivial_filter :: string list \<Rightarrow> bool),
             scene_file_paths = [''d/0.pb'', ''d/2.pb''] \<rparr>"
  let ?d' = "\<lparr> feature_producer = sample_producer, transform_ground_truth_to_agent_frame = True,
             scene_tags_filter = (trivial_filter :: (string, string) dict \<Rightarrow> bool),
             trajectory_tags_filter = (trivial_filter :: string list \<Rightarrow> bool),
             scene_file_paths = [''d/0.pb'', ''d/2.pb''] \<rparr>"
  let ?wi = "\<lparr> worker_id = 1, num_workers = 2 \<rparr>"
  have h1: "fst (init ?U ''d/'' ''tags.txt'' sample_producer True (Callable in_moscow)
                  PyNone None) = Inr ?d"
    by (simp add: init_def callable_or_trivial_filter_def filter_paths_def py_getitem_def
        tag_file_def)
  have h2: "scene_file_paths ?d = [''d/0.pb'', ''d/2.pb'']" by simp
  have h3: "callable_or_trivial_filter (PyNone :: (string, string) dict filter_arg)
              = Inr trivial_filter"
    by (simp add: callable_or_trivial_filter_def)
  have built: "init ?V ''elsewhere/'' ''missing.txt'' sample_producer True PyNone PyNone
                 (Some [''d/0.pb'', ''d/2.pb''])
        = (Inr ?d', [Print ''Building MotionPredictionDataset with pre-filtered scene file paths.''])"
    by (simp add: init_def callable_or_trivial_filter_def)
  from pre_filtered_mode_equivalence [OF h1 h2 h3, of ?V "''elsewhere/''" "''missing.txt''"]
  obtain d' where "init ?V ''elsewhere/'' ''missing.txt'' sample_producer True PyNone PyNone
                 (Some [''d/0.pb'', ''d/2.pb''])
        = (Inr d', [Print ''Building MotionPredictionDataset with pre-filtered scene file paths.''])"
    and same: "\<forall>(E :: (string, nat, nat, int, string list, (string, string) dict, string) env)
                  info. iter E d' info = iter E ?d info"
    by blast
  with built have eq: "d' = ?d'" by simp
  have "iter ?V d' (Some ?wi) = iter ?V ?d (Some ?wi)"
    using same [rule_format, of ?V "Some ?wi"] .
  then have it: "iter ?V ?d' (Some ?wi) = iter ?V ?d (Some ?wi)" by (simp only: eq)
  from h1 h3 built it show ?thesis by (intro conjI)
qed

section \<open>Iteration: the producer emits the key of the ground truth\<close>

lemma dict_get_setitem:
  "dict_get (dict_setitem k v d) k' = (if k' = k then Some v else dict_get d k')"
  by (induction d) (auto simp: dict_get_def)

lemma keys_dict_setitem:
  "set (map fst (dict_setitem k v d)) = insert k (set (map fst d))"
proof (induction d)
  case Nil
  then show ?case by simp
next
  case (Cons p d)
  obtain k' v' where p: "p = (k', v')" by (cases p)
  show ?case
  proof (cases "k' = k")
    case True
    then show ?thesis by (simp add: p)
  next
    case False
    have "set (map fst (dict_setitem k v (p # d))) = insert k' (set (map fst (dict_setitem k v d)))"
      using False by (simp add: p)
    also have "\<dots> = insert k' (insert k (set (map fst d)))"
      by (simp only: Cons.IH)
    also have "\<dots> = insert k (set (map fst (p # d)))"
      by (simp add: p insert_commute)
    finally show ?thesis .
  qed
qed

lemma distinct_dict_setitem:
  "distinct (map fst d) \<Longrightarrow> distinct (map fst (dict_setitem k v d))"
proof (induction d)
  case Nil
  then show ?case by simp
next
  case (Cons p d)
  obtain k' v' where p: "p = (k', v')" by (cases p)
  from Cons.prems have fresh: "k' \<notin> set (map fst d)" and rest: "distinct (map fst d)"
    by (simp_all add: p)
  show ?case
  proof (cases "k' = k")
    case True
    then show ?thesis using Cons.prems by (simp add: p)
  next
    case False
    have "k' \<notin> set (map fst (dict_setitem k v d))"
      using fresh False by (simp only: keys_dict_setitem) simp
    moreover have "distinct (map fst (dict_setitem k v d))"
      using Cons.IH rest by simp
    ultimately show ?thesis using False by (simp add: p del: set_map)
  qed
qed

lemma distinct_dict_update:
  "distinct (map fst d) \<Longrightarrow> distinct (map fst (dict_update d other))"
  by (induction d other rule: dict_update.induct) (simp_all add: distinct_dict_setitem)

lemma dict_get_update:
  "distinct (map fst other) \<Longrightarrow>
   dict_get (dict_update d other) k =
     (case map_of other k of Some v \<Rightarrow> Some v | None \<Rightarrow> dict_get d k)"
proof (induction d other rule: dict_update.induct)
  case (1 d)
  then show ?case by simp
next
  case (2 d k0 v0 other)
  then have IH: "dict_get (dict_update (dict_setitem k0 v0 d) other) k =
     (case map_of other k of Some v \<Rightarrow> Some v | None \<Rightarrow> dict_get (dict_setitem k0 v0 d) k)"
    by simp
  have fresh: "map_of other k0 = None"
    using "2.prems" by (simp add: map_of_eq_None_iff)
  show ?case
    using IH fresh by (auto simp: dict_get_setitem split: option.splits)
qed

lemma dict_get_update_last:
  "dict_get (dict_update d other) k =
     (case map_of (rev other) k of Some v \<Rightarrow> Some v | None \<Rightarrow> dict_get d k)"
proof (induction d other rule: dict_update.induct)
  case (1 d)
  then show ?case by simp
next
  case (2 d k0 v0 other)
  show ?case
    by (simp add: "2.IH" dict_get_setitem map_add_def split: option.splits)
qed

text \<open>
  Claim C10. Every example is the dictionary holding \<^verbatim>\<open>ground_truth_trajectory\<close> (the
  trajectory, transformed when the flag is set), updated with the whole output of the
  feature producer: at every key the example holds what the output gives for it (the
  last item with that key), and outside the output only the computed trajectory under its
  own key. If the output has the key \<^verbatim>\<open>ground_truth_trajectory\<close> itself, its value is the
  one stored in the example and the computed trajectory is gone; the example is built all
  the same. Without the key in the output the computed trajectory stays.
\<close>

theorem producer_key_collision:
  "(let tf = get_to_track_frame_transform U
               (get_track_for_transform U scene (track_id U request));
        gt = get_gt_trajectory U scene (track_id U request);
        gt' = (if transform_ground_truth_to_agent_frame self
               then transform2dpoints U gt tf else gt);
        out = feature_producer self scene tf
    in make_example U self scene request = dict_update [(''ground_truth_trajectory'', gt')] out
       \<and> (distinct (map fst out) \<and> (''ground_truth_trajectory'', v) \<in> set out \<longrightarrow>
            dict_get (make_example U self scene request) ''ground_truth_trajectory'' = Some v
            \<and> distinct (map fst (make_example U self scene request)))
       \<and> (distinct (map fst out) \<and> ''ground_truth_trajectory'' \<notin> fst ` set out \<longrightarrow>
            dict_get (make_example U self scene request) ''ground_truth_trajectory'' = Some gt')
       \<and> (\<forall>k. dict_get (make_example U self scene request) k =
                (case map_of (rev out) k of
                   Some w \<Rightarrow> Some w
                 | None \<Rightarrow> if k = ''ground_truth_trajectory'' then Some gt' else None))
       \<and> (distinct (map fst out) \<longrightarrow>
            (\<forall>k. dict_get (make_example U self scene request) k =
                (case map_of out k of
                   Some w \<Rightarrow> Some w
                 | None \<Rightarrow> if k = ''ground_truth_trajectory'' then Some gt' else None))))"
proof -
  define tf where "tf = get_to_track_frame_transform U
               (get_track_for_transform U scene (track_id U request))"
  define gt where "gt = get_gt_trajectory U scene (track_id U request)"
  define gt' where "gt' = (if transform_ground_truth_to_agent_frame self
               then transform2dpoints U gt tf else gt)"
  define out where "out = feature_producer self scene tf"
  have built: "make_example U self scene request =
                 dict_update [(''ground_truth_trajectory'', gt')] out"
    by (simp add: make_example_def Let_def tf_def gt_def gt'_def out_def)
  have hit: "dict_get (make_example U self scene request) ''ground_truth_trajectory'' = Some v"
    if "distinct (map fst out)" "(''ground_truth_trajectory'', v) \<in> set out"
  proof -
    have "map_of out ''ground_truth_trajectory'' = Some v"
      using that by simp
    then show ?thesis
      using dict_get_update [OF that(1)] by (simp add: built)
  qed
  have one: "distinct (map fst (make_example U self scene request))"
    unfolding built by (rule distinct_dict_update) simp
  have miss: "dict_get (make_example U self scene request) ''ground_truth_trajectory'' = Some gt'"
    if "distinct (map fst out)" "''ground_truth_trajectory'' \<notin> fst ` set out"
  proof -
    have "map_of out ''ground_truth_trajectory'' = None"
      using that(2) by (simp add: map_of_eq_None_iff)
    then show ?thesis
      using dict_get_update [OF that(1)] by (simp add: built dict_get_def)
  qed
  have base: "dict_get [(''ground_truth_trajectory'', gt')] k =
                (if k = ''ground_truth_trajectory'' then Some gt' else None)" for k
    by (simp add: dict_get_def)
  have every: "\<forall>k. dict_get (make_example U self scene request) k =
                (case map_of (rev out) k of
                   Some w \<Rightarrow> Some w
                 | None \<Rightarrow> if k = ''ground_truth_trajectory'' then Some gt' else None)"
    unfolding built dict_get_update_last base by simp
  have every_dict: "\<forall>k. dict_get (make_example U self scene request) k =
                (case map_of out k of
                   Some w \<Rightarrow> Some w
                 | None \<Rightarrow> if k = ''ground_truth_trajectory'' then Some gt' else None)"
    if "distinct (map fst out)"
    unfolding built dict_get_update [OF that] base by simp
  from built hit one miss every every_dict show ?thesis
    unfolding Let_def tf_def [symmetric] gt_def [symmetric] gt'_def [symmetric] out_def [symmetric]
    by blast
qed

theorem producer_key_collision_witness:
  "distinct (map fst (colliding_producer ''s0'' 0))
   \<and> (''ground_truth_trajectory'', ''from the producer'') \<in> set (colliding_producer ''s0'' 0)
   \<and> dict_get (make_example (sample_env Map.empty)
        \<lparr> feature_producer = colliding_producer, transform_ground_truth_to_agent_frame = True,
          scene_tags_filter = trivial_filter, trajectory_tags_filter = trivial_filter,
          scene_file_paths = [''s0''] \<rparr> ''s0'' 0) ''ground_truth_trajectory''
       = Some ''from the producer''
   \<and> dict_get (make_example (sample_env Map.empty)
        \<lparr> feature_producer = colliding_producer, transform_ground_truth_to_agent_frame = True,
          scene_tags_filter = trivial_filter, trajectory_tags_filter = trivial_filter,
          scene_file_paths = [''s0''] \<rparr> ''s0'' 0) ''feature_maps''
       = Some ''maps of s0''
   \<and> dict_get (make_example (sample_env Map.empty)
        \<lparr> feature_producer = colliding_producer, transform_ground_truth_to_agent_frame = True,
          scene_tags_filter = trivial_filter, trajectory_tags_filter = trivial_filter,
          scene_file_paths = [''s0''] \<rparr> ''s0'' 0) ''another key''
       = None"
proof -
  let ?U = "sample_env Map.empty"
  let ?d = "\<lparr> feature_producer = colliding_producer, transform_ground_truth_to_agent_frame = True,
          scene_tags_filter = (trivial_filter :: (string, string) dict \<Rightarrow> bool),
          trajectory_tags_filter = (trivial_filter :: string list \<Rightarrow> bool),
          scene_file_paths = [''s0''] \<rparr>"
  have h1: "distinct (map fst (colliding_producer ''s0'' 0))"
    by (simp add: colliding_producer_def)
  have h2: "(''ground_truth_trajectory'', ''from the producer'') \<in> set (colliding_producer ''s0'' 0)"
    by (simp add: colliding_producer_def)
  let ?tf = "get_to_track_frame_transform ?U (get_track_for_transform ?U ''s0'' (track_id ?U 0))"
  have out: "feature_producer ?d ''s0'' ?tf = colliding_producer ''s0'' 0"
    by simp
  note inst = producer_key_collision [of ?U "''s0''" 0 ?d "''from the producer''", unfolded Let_def]
  have pre: "distinct (map fst (feature_producer ?d ''s0'' ?tf))
        \<and> (''ground_truth_trajectory'', ''from the producer'') \<in> set (feature_producer ?d ''s0'' ?tf)"
    using h1 h2 by (simp only: out)
  have r1: "dict_get (make_example ?U ?d ''s0'' 0) ''ground_truth_trajectory''
               = Some ''from the producer''"
    using inst pre by blast
  have all: "\<forall>k. dict_get (make_example ?U ?d ''s0'' 0) k =
                (case map_of (feature_producer ?d ''s0'' ?tf) k of
                   Some w \<Rightarrow> Some w
                 | None \<Rightarrow> if k = ''ground_truth_trajectory''
                     then Some (if transform_ground_truth_to_agent_frame ?d
                                then transform2dpoints ?U (get_gt_trajectory ?U ''s0'' (track_id ?U 0)) ?tf
                                else get_gt_trajectory ?U ''s0'' (track_id ?U 0))
                     else None)"
    using inst pre by blast
  have r2: "dict_get (make_example ?U ?d ''s0'' 0) ''feature_maps'' = Some ''maps of s0''"
    using all [rule_format, of "''feature_maps''"] by (simp add: colliding_producer_def)
  have r3: "dict_get (make_example ?U ?d ''s0'' 0) ''another key'' = None"
    using all [rule_format, of "''another key''"] by (simp add: colliding_producer_def)
  from h1 h2 r1 r2 r3 show ?thesis by (intro conjI)
qed

section \<open>The shipped renderer configuration\<close>

text \<open>
  Claim C9. Every renderer group of \<^verbatim>\<open>RENDERER_CONFIG\<close> has a time grid with
  \<open>0 \<le> start \<le> stop\<close> and \<open>step \<ge> 1\<close>, and every layer listed for the pedestrians is
  occupancy or velocity.
\<close>

theorem renderer_config_invariant:
  "\<forall>g \<in> set (renderers_groups RENDERER_CONFIG).
      0 \<le> start (time_grid_params g)
      \<and> start (time_grid_params g) \<le> stop (time_grid_params g)
      \<and> 1 \<le> step (time_grid_params g)
      \<and> (\<forall>r \<in> set (renderers g). \<forall>(cls, layers) \<in> set r.
            cls = ''pedestrians'' \<longrightarrow> set layers \<subseteq> {''occupancy'', ''velocity''})"
  by (simp add: RENDERER_CONFIG_def)

theorem renderer_config_invariant_witness:
  "renderers_groups RENDERER_CONFIG ! 0 \<in> set (renderers_groups RENDERER_CONFIG)
   \<and> start (time_grid_params (renderers_groups RENDERER_CONFIG ! 0)) = 0
   \<and> stop (time_grid_params (renderers_groups RENDERER_CONFIG ! 0)) = 0
   \<and> step (time_grid_params (renderers_groups RENDERER_CONFIG ! 0)) = 1
   \<and> [(''pedestrians'', [''occupancy'', ''velocity''])]
        \<in> set (renderers (renderers_groups RENDERER_CONFIG ! 0))
   \<and> set [''occupancy'', ''velocity''] \<subseteq> {''occupancy'', ''velocity''}"
proof -
  let ?g = "renderers_groups RENDERER_CONFIG ! 0"
  have g: "?g \<in> set (renderers_groups RENDERER_CONFIG)"
    by (simp add: RENDERER_CONFIG_def)
  have r: "[(''pedestrians'', [''occupancy'', ''velocity''])] \<in> set (renderers ?g)"
    by (simp add: RENDERER_CONFIG_def)
  from renderer_config_invariant g
  have inv: "0 \<le> start (time_grid_params ?g)
      \<and> start (time_grid_params ?g) \<le> stop (time_grid_params ?g)
      \<and> 1 \<le> step (time_grid_params ?g)
      \<and> (\<forall>r \<in> set (renderers ?g). \<forall>(cls, layers) \<in> set r.
            cls = ''pedestrians'' \<longrightarrow> set layers \<subseteq> {''occupancy'', ''velocity''})"
    by (rule bspec)
  then have "\<forall>(cls, layers) \<in> set [(''pedestrians'', [''occupancy'', ''velocity''])].
            cls = ''pedestrians'' \<longrightarrow> set layers \<subseteq> {''occupancy'', ''velocity''}"
    using r by blast
  then have sub: "set [''occupancy'', ''velocity''] \<subseteq> {''occupancy'', ''velocity''}"
    by simp
  have vals: "start (time_grid_params ?g) = 0" "stop (time_grid_params ?g) = 0"
    "step (time_grid_params ?g) = 1"
    by (simp_all add: RENDERER_CONFIG_def)
  from g vals r sub show ?thesis by (intro conjI)
qed

end
